theory Spec2Isabelle
  imports Main "HOL-Library.Multiset" "HOL-Library.Sublist"
begin

section \<open>Text, values and errors\<close>

text \<open>
  A Python text string is a sequence of Unicode code points. A code point is a natural
  number, so that accented letters and combining marks are single elements, as they are
  for \<^verbatim>\<open>len\<close>, \<^verbatim>\<open>split\<close> and \<^verbatim>\<open>sorted\<close>. Attribute names and
  keyword names are identifiers of the source and stay Isabelle strings.
\<close>

type_synonym uchar = nat
type_synonym ustring = "uchar list"

definition u :: "string \<Rightarrow> ustring" where
  "u s = map of_char s"

text \<open>
  The value that flows through the pipeline. It starts as a string, and stays one through
  the ten transformation operations; the other attributes a step can name return
  \<^verbatim>\<open>None\<close> (\<^verbatim>\<open>__init__\<close>, \<^verbatim>\<open>_load_stop_words\<close>) or an object
  (\<^verbatim>\<open>_get_logger\<close>, \<^verbatim>\<open>_parse_normalizations\<close>). \<open>IntV\<close> is there for
  logging levels.
\<close>

datatype pyval = Str ustring | IntV int | NoneV | ObjV

text \<open>
  The exceptions of the source, under the names the specification gives the three it
  speaks of:
  \<^item> \<open>UnknownOperationError\<close>: the \<^verbatim>\<open>AttributeError\<close> of \<^verbatim>\<open>getattr\<close> (line 89);
  \<^item> \<open>ResourceNotFoundError\<close>: the \<^verbatim>\<open>IOError\<close> of \<^verbatim>\<open>codecs.open\<close> (line 62), for a
    file that is not there;
  \<^item> \<open>InvalidOptionError\<close>: the \<^verbatim>\<open>TypeError\<close> of a call whose keyword arguments
    do not fit the signature (line 89);
  \<^item> \<open>TypeError\<close>, \<open>AttributeError\<close>, \<open>ValueError\<close>: raised inside an operation, for
    instance by a text that is not a string;
  \<^item> \<open>UnicodeEncodeError\<close>: raised by \<^verbatim>\<open>codecs.open\<close> (line 62) for a file name
    that the file-system encoding cannot encode; it is not an \<^verbatim>\<open>IOError\<close>;
  \<^item> \<open>ReError\<close>: \<^verbatim>\<open>re.error\<close>, from a replacement template.
\<close>

datatype error =
    UnknownOperationError
  | ResourceNotFoundError
  | InvalidOptionError
  | TypeError
  | AttributeError
  | ValueError
  | UnicodeEncodeError
  | ReError

subsection \<open>String primitives\<close>

text \<open>\<^verbatim>\<open>str.isspace\<close> for one code point (the whitespace of \<^verbatim>\<open>str.split()\<close>).\<close>

definition is_space :: "uchar \<Rightarrow> bool" where
  "is_space c = (c \<in> set [9, 10, 11, 12, 13, 28, 29, 30, 31, 32, 133, 160, 5760,
     8192, 8193, 8194, 8195, 8196, 8197, 8198, 8199, 8200, 8201, 8202,
     8232, 8233, 8239, 8287, 12288])"

definition SPACE :: uchar where
  "SPACE = 32"

text \<open>
  \<^verbatim>\<open>text.split()\<close>: skip whitespace, take the run of other characters, repeat. No
  token is empty and leading and trailing whitespace gives no token.
\<close>

function split_ws :: "ustring \<Rightarrow> ustring list" where
  "split_ws t =
     (let r = dropWhile is_space t in
      if r = [] then []
      else takeWhile (\<lambda>c. \<not> is_space c) r # split_ws (dropWhile (\<lambda>c. \<not> is_space c) r))"
  by pat_completeness auto
termination
proof (relation "measure length")
  show "wf (measure length)" by simp
next
  fix t r :: ustring
  assume r: "r = dropWhile is_space t" and ne: "r \<noteq> []"
  from ne obtain c cs where rc: "r = c # cs" by (cases r) auto
  with r have "\<not> is_space c" by (metis hd_dropWhile list.sel(1) ne)
  then have "length (dropWhile (\<lambda>c. \<not> is_space c) r) \<le> length cs"
    by (simp add: rc length_dropWhile_le)
  moreover have "length r \<le> length t" by (simp add: r length_dropWhile_le)
  ultimately show "(dropWhile (\<lambda>c. \<not> is_space c) r, t) \<in> measure length"
    by (simp add: rc)
qed

declare split_ws.simps [simp del]

text \<open>\<^verbatim>\<open>text.split(sep)\<close> for a separator of one character: always at least one field.\<close>

fun split_sep :: "uchar \<Rightarrow> ustring \<Rightarrow> ustring list" where
  "split_sep sep [] = [[]]"
| "split_sep sep (c # cs) =
     (if c = sep then [] # split_sep sep cs
      else (case split_sep sep cs of
              [] \<Rightarrow> [[c]]
            | w # ws \<Rightarrow> (c # w) # ws))"

text \<open>\<^verbatim>\<open>sep.join(words)\<close>.\<close>

fun join :: "ustring \<Rightarrow> ustring list \<Rightarrow> ustring" where
  "join sep [] = []"
| "join sep [w] = w"
| "join sep (w # v # ws) = w @ sep @ join sep (v # ws)"

text \<open>\<^verbatim>\<open>word.strip()\<close>.\<close>

definition strip :: "ustring \<Rightarrow> ustring" where
  "strip t = rev (dropWhile is_space (rev (dropWhile is_space t)))"

text \<open>\<^verbatim>\<open>text.replace(old, new)\<close> for an \<^verbatim>\<open>old\<close> of one character.\<close>

definition replace_char :: "uchar \<Rightarrow> ustring \<Rightarrow> ustring \<Rightarrow> ustring" where
  "replace_char old new t = concat (map (\<lambda>c. if c = old then new else [c]) t)"

section \<open>The normalizer instance and its environment\<close>

text \<open>
  A compiled regular expression of \<^verbatim>\<open>re.compile("[%s]" % re.escape(characters))\<close>:
  an object with an identity (\<open>m_id\<close>) that matches any one character of \<open>m_chars\<close>.
  Two matchers are the same object when their identities are equal.
\<close>

datatype matcher = Matcher (m_id: nat) (m_chars: ustring)

text \<open>
  The mutable state of an instance: \<^verbatim>\<open>__language\<close>, \<^verbatim>\<open>__stop_words\<close> and
  \<^verbatim>\<open>__characters_regexes\<close>. \<open>next_id\<close> is the identity the next compiled matcher
  gets. The logger is a sink and has no field.
\<close>

record state =
  language :: pyval
  stop_words :: "ustring set"
  characters_regexes :: "ustring \<rightharpoonup> matcher"
  next_id :: nat

text \<open>
  A step of a pipeline is a bare operation name or a pair of a name and keyword
  arguments (\<^verbatim>\<open>_parse_normalizations\<close>, lines 68-72). The keyword arguments are
  those some method of the class accepts, each absent (\<open>None\<close>) or present with a value
  of its documented type; \<open>kw_other\<close> lists the keywords given beyond these (\<^verbatim>\<open>text\<close>,
  \<^verbatim>\<open>language\<close>, \<^verbatim>\<open>level\<close>, a misspelt option), which no call of a method of
  the class accepts next to the positional text.
\<close>

datatype step = Bare string | Pair string kwargs
and kwargs = Kwargs
  (kw_excluded: "ustring option")
  (kw_ignore_case: "bool option")
  (kw_replacement: "ustring option")
  (kw_characters: "ustring option")
  (kw_format: "ustring option")
  (kw_lazy_load: "bool option")
  (kw_logger_level: "pyval option")
  (kw_normalizations: "step list option")
  (kw_other: "string list")

definition no_kwargs :: kwargs where
  "no_kwargs = Kwargs None None None None None None None None []"

datatype nform = NFC | NFKC | NFD | NFKD

datatype pattern = EMAIL_REGEX | URL_REGEX | EMOJI_REGEX | CharClass ustring

text \<open>
  What the source takes from outside its own file:
  \<^item> \<open>files\<close>: what opening the resource \<^verbatim>\<open>data/stop-\<close> followed by the language
    code gives: its lines, or \<open>None\<close> when \<^verbatim>\<open>codecs.open\<close> raises;
  \<^item> \<open>fs_encodable\<close>: whether the file-system encoding can encode a name;
  \<^item> \<open>str_lower\<close>: \<^verbatim>\<open>str.lower\<close>;
  \<^item> \<open>uni_normalize\<close>, \<open>uni_category\<close>: the tables of \<^verbatim>\<open>unicodedata\<close>;
  \<^item> \<open>re_sub\<close>: substitution by the patterns of \<^verbatim>\<open>normalizr.regex\<close>, and by any
    pattern when the replacement is a template (it has a backslash);
    \<open>re_template_ok\<close>: whether such a template is well-formed for the pattern;
  \<^item> \<open>level_name\<close>: the level names \<^verbatim>\<open>logging\<close> knows;
  \<^item> \<open>rt_attr\<close>, \<open>rt_call\<close>: the attributes an instance inherits from the runtime's
    base object (\<^verbatim>\<open>__class__\<close>, \<^verbatim>\<open>__delattr__\<close>, ...) and what calling one
    does. They differ between Python 2 and 3 and are left open.
\<close>

record env =
  files :: "ustring \<Rightarrow> ustring list option"
  fs_encodable :: "ustring \<Rightarrow> bool"
  str_lower :: "ustring \<Rightarrow> ustring"
  uni_normalize :: "nform \<Rightarrow> ustring \<Rightarrow> ustring"
  uni_category :: "uchar \<Rightarrow> string"
  re_sub :: "pattern \<Rightarrow> ustring \<Rightarrow> ustring \<Rightarrow> ustring"
  re_template_ok :: "pattern \<Rightarrow> ustring \<Rightarrow> bool"
  level_name :: "ustring \<Rightarrow> bool"
  rt_attr :: "string \<Rightarrow> bool"
  rt_call :: "string \<Rightarrow> state \<Rightarrow> pyval \<Rightarrow> kwargs \<Rightarrow> state \<times> (error + pyval)"

section \<open>Library calls of the source\<close>

definition nform_of :: "ustring \<Rightarrow> nform option" where
  "nform_of f =
     (if f = u ''NFC'' then Some NFC
      else if f = u ''NFKC'' then Some NFKC
      else if f = u ''NFD'' then Some NFD
      else if f = u ''NFKD'' then Some NFKD
      else None)"

text \<open>
  \<^verbatim>\<open>unicodedata.normalize(form, text)\<close>: a text that is not a string is a
  \<^verbatim>\<open>TypeError\<close>; the empty string is returned before the form is looked at; an
  unknown form is a \<^verbatim>\<open>ValueError\<close>.
\<close>

definition unicodedata_normalize :: "env \<Rightarrow> ustring \<Rightarrow> pyval \<Rightarrow> error + ustring" where
  "unicodedata_normalize env form text =
     (case text of
        Str t \<Rightarrow>
          (if t = [] then Inr []
           else (case nform_of form of
                   None \<Rightarrow> Inl ValueError
                 | Some f \<Rightarrow> Inr (uni_normalize env f t)))
      | _ \<Rightarrow> Inl TypeError)"

definition BACKSLASH :: uchar where
  "BACKSLASH = 92"

text \<open>
  \<^verbatim>\<open>pattern.sub(replacement, text)\<close>. A replacement with a backslash is a template,
  parsed before the text is looked at. A replacement without one is taken literally, and
  for a character class every matching character is replaced by it.
\<close>

definition sub_string :: "env \<Rightarrow> pattern \<Rightarrow> ustring \<Rightarrow> ustring \<Rightarrow> ustring" where
  "sub_string env p replacement t =
     (case p of
        CharClass chars \<Rightarrow>
          (if BACKSLASH \<in> set replacement then re_sub env p replacement t
           else concat (map (\<lambda>c. if c \<in> set chars then replacement else [c]) t))
      | _ \<Rightarrow> re_sub env p replacement t)"

definition pattern_sub :: "env \<Rightarrow> pattern \<Rightarrow> ustring \<Rightarrow> pyval \<Rightarrow> error + pyval" where
  "pattern_sub env p replacement text =
     (if BACKSLASH \<in> set replacement \<and> \<not> re_template_ok env p replacement then Inl ReError
      else (case text of
              Str t \<Rightarrow> Inr (Str (sub_string env p replacement t))
            | _ \<Rightarrow> Inl TypeError))"

text \<open>\<^verbatim>\<open>logger.setLevel(level)\<close>: an integer, or the name of a known level.\<close>

definition check_level :: "env \<Rightarrow> pyval \<Rightarrow> error option" where
  "check_level env level =
     (case level of
        IntV n \<Rightarrow> None
      | Str n \<Rightarrow> (if level_name env n then None else Some ValueError)
      | _ \<Rightarrow> Some TypeError)"

definition INFO :: pyval where
  "INFO = IntV 20"

section \<open>The class \<^verbatim>\<open>Normalizr\<close>\<close>

definition DEFAULT_NORMALIZATIONS :: "step list" where
  "DEFAULT_NORMALIZATIONS =
     [Bare ''remove_extra_whitespaces'', Bare ''replace_punctuation'',
      Bare ''replace_symbols'', Bare ''remove_stop_words'']"

text \<open>\<^verbatim>\<open>string.punctuation\<close>, by code point.\<close>

definition punctuation :: ustring where
  "punctuation = [33, 34, 35, 36, 37, 38, 39, 40, 41, 42, 43, 44, 45, 46, 47,
     58, 59, 60, 61, 62, 63, 64, 91, 92, 93, 94, 95, 96, 123, 124, 125, 126]"

text \<open>\<^verbatim>\<open>_get_logger\<close> (lines 39-50): returns the logger, an object.\<close>

definition get_logger :: "env \<Rightarrow> pyval \<Rightarrow> error + pyval" where
  "get_logger env level =
     (case check_level env level of
        Some e \<Rightarrow> Inl e
      | None \<Rightarrow> Inr ObjV)"

text \<open>
  \<^verbatim>\<open>_load_stop_words\<close> (lines 52-66). The inner loop adds the words of the first
  field of a line; the outer loop runs over the lines.
\<close>

fun add_words :: "ustring list \<Rightarrow> ustring set \<Rightarrow> ustring set" where
  "add_words [] S = S"
| "add_words (word # rest) S = add_words rest (insert (strip word) S)"

fun load_lines :: "ustring list \<Rightarrow> ustring set \<Rightarrow> ustring set" where
  "load_lines [] S = S"
| "load_lines (line # rest) S =
     (case split_sep 124 line of
        [] \<Rightarrow> load_lines rest S
      | field # _ \<Rightarrow> load_lines rest (add_words (split_ws field) S))"

text \<open>
  The exception of \<^verbatim>\<open>codecs.open\<close> (line 62) when it opens nothing: the name is
  encoded first, then searched for a NUL character, and only then is the file looked for.
  Opening a name that cannot be encoded or that has a NUL character never gives lines, so
  \<open>files\<close> is \<open>None\<close> there in every environment that describes a file system.
\<close>

definition open_error :: "env \<Rightarrow> ustring \<Rightarrow> error" where
  "open_error env l =
     (if \<not> fs_encodable env l then UnicodeEncodeError
      else if 0 \<in> set l then ValueError
      else ResourceNotFoundError)"

definition load_stop_words :: "env \<Rightarrow> state \<Rightarrow> pyval \<Rightarrow> state \<times> (error + pyval)" where
  "load_stop_words env s lang =
     (case lang of
        Str l \<Rightarrow>
          (case files env l of
             None \<Rightarrow> (s, Inl (open_error env l))
           | Some lines \<Rightarrow> (s\<lparr>stop_words := load_lines lines (stop_words s)\<rparr>, Inr NoneV))
      | _ \<Rightarrow> (s, Inl TypeError))"

text \<open>
  \<^verbatim>\<open>__init__\<close> (lines 30-37), as it acts on an instance: the assignments in their
  order, so that a failure leaves the earlier ones done.
\<close>

definition init :: "env \<Rightarrow> state \<Rightarrow> pyval \<Rightarrow> bool \<Rightarrow> pyval \<Rightarrow> state \<times> (error + pyval)" where
  "init env s lang lazy_load logger_level =
     (let s1 = s\<lparr>language := lang\<rparr> in
      case get_logger env logger_level of
        Inl e \<Rightarrow> (s1, Inl e)
      | Inr _ \<Rightarrow>
          (let s2 = s1\<lparr>stop_words := {}, characters_regexes := Map.empty\<rparr> in
           if \<not> lazy_load then
             (case load_stop_words env s2 lang of
                (s3, Inl e) \<Rightarrow> (s3, Inl e)
              | (s3, Inr _) \<Rightarrow> (s3, Inr NoneV))
           else (s2, Inr NoneV)))"

text \<open>
  \<^verbatim>\<open>Normalizr(language, lazy_load, logger_level)\<close>: a new instance, or the exception of
  \<^verbatim>\<open>__init__\<close> and no instance.
\<close>

definition blank :: state where
  "blank = \<lparr>language = NoneV, stop_words = {}, characters_regexes = Map.empty, next_id = 0\<rparr>"

definition Normalizr :: "env \<Rightarrow> pyval \<Rightarrow> bool \<Rightarrow> pyval \<Rightarrow> error + state" where
  "Normalizr env lang lazy_load logger_level =
     (case init env blank lang lazy_load logger_level of
        (s, Inl e) \<Rightarrow> Inl e
      | (s, Inr _) \<Rightarrow> Inr s)"

subsection \<open>The transformation operations\<close>

text \<open>
  \<^verbatim>\<open>remove_accent_marks\<close> (lines 92-104). \<open>unmarked\<close> is the generator
  \<^verbatim>\<open>c for c in ... if unicodedata.category(c) != 'Mn' or c in excluded\<close>.
\<close>

fun unmarked :: "env \<Rightarrow> ustring \<Rightarrow> ustring \<Rightarrow> ustring" where
  "unmarked env excluded [] = []"
| "unmarked env excluded (c # cs) =
     (if uni_category env c \<noteq> ''Mn'' \<or> c \<in> set excluded
      then c # unmarked env excluded cs
      else unmarked env excluded cs)"

definition remove_accent_marks :: "env \<Rightarrow> pyval \<Rightarrow> ustring \<Rightarrow> error + pyval" where
  "remove_accent_marks env text excluded =
     (case unicodedata_normalize env (u ''NFKD'') text of
        Inl e \<Rightarrow> Inl e
      | Inr d \<Rightarrow>
          (case unicodedata_normalize env (u ''NFKC'') (Str (unmarked env excluded d)) of
             Inl e \<Rightarrow> Inl e
           | Inr r \<Rightarrow> Inr (Str r)))"

text \<open>\<^verbatim>\<open>remove_extra_whitespaces\<close> (lines 106-119): \<^verbatim>\<open>' '.join(text.split())\<close>.\<close>

definition remove_extra_whitespaces :: "pyval \<Rightarrow> error + pyval" where
  "remove_extra_whitespaces text =
     (case text of
        Str t \<Rightarrow> Inr (Str (join [SPACE] (split_ws t)))
      | _ \<Rightarrow> Inl AttributeError)"

text \<open>
  \<^verbatim>\<open>remove_stop_words\<close> (lines 121-138). \<open>kept_words\<close> is the generator
  \<^verbatim>\<open>word for word in text.split(' ') if (word.lower() if ignore_case else word) not in
  self.__stop_words\<close>; the load of lines 134-135 comes first.
\<close>

fun kept_words :: "(ustring \<Rightarrow> ustring) \<Rightarrow> bool \<Rightarrow> ustring set \<Rightarrow> ustring list \<Rightarrow> ustring list" where
  "kept_words lower ignore_case sw [] = []"
| "kept_words lower ignore_case sw (word # rest) =
     (if (if ignore_case then lower word else word) \<notin> sw
      then word # kept_words lower ignore_case sw rest
      else kept_words lower ignore_case sw rest)"

definition remove_stop_words :: "env \<Rightarrow> state \<Rightarrow> pyval \<Rightarrow> bool \<Rightarrow> state \<times> (error + pyval)" where
  "remove_stop_words env s text ignore_case =
     (case (if stop_words s = {} then load_stop_words env s (language s) else (s, Inr NoneV)) of
        (s', Inl e) \<Rightarrow> (s', Inl e)
      | (s', Inr _) \<Rightarrow>
          (case text of
             Str t \<Rightarrow>
               (s', Inr (Str (join [SPACE]
                  (kept_words (str_lower env) ignore_case (stop_words s') (split_sep SPACE t)))))
           | _ \<Rightarrow> (s', Inl AttributeError)))"

text \<open>\<^verbatim>\<open>replace_emails\<close>, \<^verbatim>\<open>replace_emojis\<close>, \<^verbatim>\<open>replace_urls\<close> (lines 140-165, 243-254).\<close>

definition replace_emails :: "env \<Rightarrow> pyval \<Rightarrow> ustring \<Rightarrow> error + pyval" where
  "replace_emails env text replacement = pattern_sub env EMAIL_REGEX replacement text"

definition replace_emojis :: "env \<Rightarrow> pyval \<Rightarrow> ustring \<Rightarrow> error + pyval" where
  "replace_emojis env text replacement = pattern_sub env EMOJI_REGEX replacement text"

definition replace_urls :: "env \<Rightarrow> pyval \<Rightarrow> ustring \<Rightarrow> error + pyval" where
  "replace_urls env text replacement = pattern_sub env URL_REGEX replacement text"

text \<open>
  \<^verbatim>\<open>replace_characters\<close> (lines 167-189). \<open>lookup_or_compile\<close> is lines 183-187: the
  matcher stored under the key, or a new one, stored.
\<close>

definition lookup_or_compile :: "state \<Rightarrow> ustring \<Rightarrow> state \<times> matcher" where
  "lookup_or_compile s key =
     (case characters_regexes s key of
        Some m \<Rightarrow> (s, m)
      | None \<Rightarrow>
          (let m = Matcher (next_id s) key in
           (s\<lparr>characters_regexes := (characters_regexes s)(key \<mapsto> m),
               next_id := Suc (next_id s)\<rparr>, m)))"

definition replace_characters ::
  "env \<Rightarrow> state \<Rightarrow> pyval \<Rightarrow> ustring \<Rightarrow> ustring \<Rightarrow> state \<times> (error + pyval)" where
  "replace_characters env s text characters replacement =
     (if characters = [] then (s, Inr text)
      else (case lookup_or_compile s (sort characters) of
              (s', m) \<Rightarrow> (s', pattern_sub env (CharClass (m_chars m)) replacement text)))"

text \<open>\<^verbatim>\<open>replace_hyphens\<close> (lines 191-202).\<close>

definition replace_hyphens :: "pyval \<Rightarrow> ustring \<Rightarrow> error + pyval" where
  "replace_hyphens text replacement =
     (case text of
        Str t \<Rightarrow> Inr (Str (replace_char 45 replacement t))
      | _ \<Rightarrow> Inl AttributeError)"

text \<open>
  \<^verbatim>\<open>replace_punctuation\<close> (lines 204-224). The punctuation left is a set, joined in
  the order its iteration gives; \<^verbatim>\<open>replace_characters\<close> sorts it, so the order taken
  here, that of the code points, is as good as any.
\<close>

definition replace_punctuation ::
  "env \<Rightarrow> state \<Rightarrow> pyval \<Rightarrow> ustring option \<Rightarrow> ustring \<Rightarrow> state \<times> (error + pyval)" where
  "replace_punctuation env s text excluded replacement =
     (let excl = (case excluded of None \<Rightarrow> [] | Some e \<Rightarrow> e);
          punct = filter (\<lambda>c. c \<notin> set excl) punctuation
      in replace_characters env s text punct replacement)"

text \<open>
  \<^verbatim>\<open>replace_symbols\<close> (lines 226-241). \<open>symbols_replaced\<close> is the generator
  \<^verbatim>\<open>c if unicodedata.category(c) not in categories or c in excluded else replacement\<close>.
\<close>

definition categories :: "string list" where
  "categories = [''Mn'', ''Sc'', ''Sk'', ''Sm'', ''So'']"

fun symbols_replaced :: "env \<Rightarrow> ustring \<Rightarrow> ustring \<Rightarrow> ustring \<Rightarrow> ustring list" where
  "symbols_replaced env excluded replacement [] = []"
| "symbols_replaced env excluded replacement (c # cs) =
     (if uni_category env c \<notin> set categories \<or> c \<in> set excluded then [c] else replacement)
       # symbols_replaced env excluded replacement cs"

definition replace_symbols :: "env \<Rightarrow> pyval \<Rightarrow> ustring \<Rightarrow> ustring \<Rightarrow> ustring \<Rightarrow> error + pyval" where
  "replace_symbols env text format excluded replacement =
     (case unicodedata_normalize env format text of
        Inl e \<Rightarrow> Inl e
      | Inr t \<Rightarrow> Inr (Str (join [] (symbols_replaced env excluded replacement t))))"

subsection \<open>The dispatcher\<close>

text \<open>
  \<^verbatim>\<open>getattr(self, normalization)\<close> (line 89) looks the name up among the attributes
  of the instance: the ten transformation operations, the other methods of the class
  (\<^verbatim>\<open>normalize\<close>, \<^verbatim>\<open>_load_stop_words\<close>, \<^verbatim>\<open>_get_logger\<close>,
  \<^verbatim>\<open>_parse_normalizations\<close>, \<^verbatim>\<open>__init__\<close>), the data attributes under their
  mangled names, and what the runtime's base object gives. Any other name raises.
\<close>

datatype member =
    M_remove_accent_marks | M_remove_extra_whitespaces | M_remove_stop_words
  | M_replace_emails | M_replace_emojis | M_replace_characters | M_replace_hyphens
  | M_replace_punctuation | M_replace_symbols | M_replace_urls
  | M_normalize | M_load_stop_words | M_get_logger | M_parse_normalizations | M_init
  | M_data | M_runtime

definition data_attributes :: "string list" where
  "data_attributes = [''_Normalizr__language'', ''_Normalizr__logger'',
     ''_Normalizr__stop_words'', ''_Normalizr__characters_regexes'',
     ''_Normalizr__punctuation'']"

definition getattr :: "env \<Rightarrow> string \<Rightarrow> member option" where
  "getattr env name =
     (if name = ''remove_accent_marks'' then Some M_remove_accent_marks
      else if name = ''remove_extra_whitespaces'' then Some M_remove_extra_whitespaces
      else if name = ''remove_stop_words'' then Some M_remove_stop_words
      else if name = ''replace_emails'' then Some M_replace_emails
      else if name = ''replace_emojis'' then Some M_replace_emojis
      else if name = ''replace_characters'' then Some M_replace_characters
      else if name = ''replace_hyphens'' then Some M_replace_hyphens
      else if name = ''replace_punctuation'' then Some M_replace_punctuation
      else if name = ''replace_symbols'' then Some M_replace_symbols
      else if name = ''replace_urls'' then Some M_replace_urls
      else if name = ''normalize'' then Some M_normalize
      else if name = ''_load_stop_words'' then Some M_load_stop_words
      else if name = ''_get_logger'' then Some M_get_logger
      else if name = ''_parse_normalizations'' then Some M_parse_normalizations
      else if name = ''__init__'' then Some M_init
      else if name \<in> set data_attributes then Some M_data
      else if rt_attr env name then Some M_runtime
      else None)"

text \<open>
  Binding \<^verbatim>\<open>**kwargs\<close> to the parameters of a method: every keyword given must be
  a parameter other than the text.
\<close>

definition given :: "kwargs \<Rightarrow> string list" where
  "given kw =
     (if kw_excluded kw = None then [] else [''excluded'']) @
     (if kw_ignore_case kw = None then [] else [''ignore_case'']) @
     (if kw_replacement kw = None then [] else [''replacement'']) @
     (if kw_characters kw = None then [] else [''characters'']) @
     (if kw_format kw = None then [] else [''format'']) @
     (if kw_lazy_load kw = None then [] else [''lazy_load'']) @
     (if kw_logger_level kw = None then [] else [''logger_level'']) @
     (if kw_normalizations kw = None then [] else [''normalizations''])"

definition accepts :: "string list \<Rightarrow> kwargs \<Rightarrow> bool" where
  "accepts params kw = (kw_other kw = [] \<and> list_all (\<lambda>k. k \<in> set params) (given kw))"

definition default :: "'a \<Rightarrow> 'a option \<Rightarrow> 'a" where
  "default d v = (case v of None \<Rightarrow> d | Some x \<Rightarrow> x)"

text \<open>One item of \<^verbatim>\<open>_parse_normalizations\<close> (line 72), and line 88's \<^verbatim>\<open>or\<close>.\<close>

fun parse_normalization :: "step \<Rightarrow> string \<times> kwargs" where
  "parse_normalization (Bare name) = (name, no_kwargs)"
| "parse_normalization (Pair name kw) = (name, kw)"

fun or_default :: "step list option \<Rightarrow> step list" where
  "or_default None = DEFAULT_NORMALIZATIONS"
| "or_default (Some []) = DEFAULT_NORMALIZATIONS"
| "or_default (Some (st # rest)) = st # rest"

text \<open>
  The size that decreases along the calls below: a step that names \<^verbatim>\<open>normalize\<close>
  weighs more than the default pipeline, and more than the step list it carries.
\<close>

fun weight :: "step \<Rightarrow> nat" and weight_kw :: "kwargs \<Rightarrow> nat" where
  "weight (Bare name) = (if name = ''normalize'' then 11 else 1)"
| "weight (Pair name kw) = (if name = ''normalize'' then 11 + weight_kw kw else 1)"
| "weight_kw (Kwargs a b c d e f g h i) =
     (case h of None \<Rightarrow> 0 | Some l \<Rightarrow> sum_list (map weight l))"


definition dispatch_size ::
  "env \<times> state \<times> pyval \<times> step list + env \<times> state \<times> pyval \<times> string \<times> kwargs \<Rightarrow> nat" where
  "dispatch_size x =
     (case x of
        Inl (env, s, text, steps) \<Rightarrow> sum_list (map weight steps)
      | Inr (env, s, text, name, kw) \<Rightarrow> (if name = ''normalize'' then 10 + weight_kw kw else 0))"

lemma getattr_normalize: "getattr env name = Some M_normalize \<Longrightarrow> name = ''normalize''"
  by (simp add: getattr_def split: if_splits)

text \<open>
  The loop of \<^verbatim>\<open>normalize\<close> (lines 88-90) and the call
  \<^verbatim>\<open>getattr(self, normalization)(text, **kwargs)\<close>. A step may name
  \<^verbatim>\<open>normalize\<close> itself, hence the mutual recursion. The state comes back with an
  exception too: what a step did before raising stays done.
\<close>

function run_steps :: "env \<Rightarrow> state \<Rightarrow> pyval \<Rightarrow> step list \<Rightarrow> state \<times> (error + pyval)"
  and call_attr :: "env \<Rightarrow> state \<Rightarrow> pyval \<Rightarrow> string \<Rightarrow> kwargs \<Rightarrow> state \<times> (error + pyval)" where
  "run_steps env s text [] = (s, Inr text)"
| "run_steps env s text (st # rest) =
     (case call_attr env s text (fst (parse_normalization st)) (snd (parse_normalization st)) of
        (s', Inl e) \<Rightarrow> (s', Inl e)
      | (s', Inr text') \<Rightarrow> run_steps env s' text' rest)"
| "call_attr env s text name kw =
     (case getattr env name of
        None \<Rightarrow> (s, Inl UnknownOperationError)
      | Some M_remove_accent_marks \<Rightarrow>
          (if accepts [''excluded''] kw
           then (s, remove_accent_marks env text (default [] (kw_excluded kw)))
           else (s, Inl InvalidOptionError))
      | Some M_remove_extra_whitespaces \<Rightarrow>
          (if accepts [] kw then (s, remove_extra_whitespaces text)
           else (s, Inl InvalidOptionError))
      | Some M_remove_stop_words \<Rightarrow>
          (if accepts [''ignore_case''] kw
           then remove_stop_words env s text (default True (kw_ignore_case kw))
           else (s, Inl InvalidOptionError))
      | Some M_replace_emails \<Rightarrow>
          (if accepts [''replacement''] kw
           then (s, replace_emails env text (default [] (kw_replacement kw)))
           else (s, Inl InvalidOptionError))
      | Some M_replace_emojis \<Rightarrow>
          (if accepts [''replacement''] kw
           then (s, replace_emojis env text (default [] (kw_replacement kw)))
           else (s, Inl InvalidOptionError))
      | Some M_replace_characters \<Rightarrow>
          (if accepts [''characters'', ''replacement''] kw
           then (case kw_characters kw of
                   None \<Rightarrow> (s, Inl InvalidOptionError)
                 | Some characters \<Rightarrow>
                     replace_characters env s text characters (default [] (kw_replacement kw)))
           else (s, Inl InvalidOptionError))
      | Some M_replace_hyphens \<Rightarrow>
          (if accepts [''replacement''] kw
           then (s, replace_hyphens text (default [SPACE] (kw_replacement kw)))
           else (s, Inl InvalidOptionError))
      | Some M_replace_punctuation \<Rightarrow>
          (if accepts [''excluded'', ''replacement''] kw
           then replace_punctuation env s text (kw_excluded kw) (default [] (kw_replacement kw))
           else (s, Inl InvalidOptionError))
      | Some M_replace_symbols \<Rightarrow>
          (if accepts [''format'', ''excluded'', ''replacement''] kw
           then (s, replace_symbols env text (default (u ''NFKD'') (kw_format kw))
                      (default [] (kw_excluded kw)) (default [] (kw_replacement kw)))
           else (s, Inl InvalidOptionError))
      | Some M_replace_urls \<Rightarrow>
          (if accepts [''replacement''] kw
           then (s, replace_urls env text (default [] (kw_replacement kw)))
           else (s, Inl InvalidOptionError))
      | Some M_normalize \<Rightarrow>
          (if accepts [''normalizations''] kw
           then run_steps env s text (or_default (kw_normalizations kw))
           else (s, Inl InvalidOptionError))
      | Some M_load_stop_words \<Rightarrow>
          (if accepts [] kw then load_stop_words env s text
           else (s, Inl InvalidOptionError))
      | Some M_get_logger \<Rightarrow>
          (if accepts [] kw then (s, get_logger env text)
           else (s, Inl InvalidOptionError))
      | Some M_parse_normalizations \<Rightarrow>
          (if accepts [] kw then (s, Inr ObjV)
           else (s, Inl InvalidOptionError))
      | Some M_init \<Rightarrow>
          (if accepts [''lazy_load'', ''logger_level''] kw
           then init env s text (default False (kw_lazy_load kw)) (default INFO (kw_logger_level kw))
           else (s, Inl InvalidOptionError))
      | Some M_data \<Rightarrow> (s, Inl TypeError)
      | Some M_runtime \<Rightarrow> rt_call env name s text kw)"
  by pat_completeness auto
termination
proof (relation "measure dispatch_size")
  show "wf (measure dispatch_size)"
    by simp
next
  fix env :: env and s :: state and t :: pyval and st :: step and rest :: "step list"
  show "(Inr (env, s, t, fst (parse_normalization st), snd (parse_normalization st)),
         Inl (env, s, t, st # rest)) \<in> measure dispatch_size"
    by (cases st) (simp_all add: no_kwargs_def dispatch_size_def)
next
  fix env :: env and s s' :: state and t t' :: pyval and st :: step and rest :: "step list"
  show "(Inl (env, s', t', rest), Inl (env, s, t, st # rest)) \<in> measure dispatch_size"
    by (cases st) (simp_all add: dispatch_size_def)
next
  fix env :: env and s :: state and t :: pyval and name :: string and kw :: kwargs
    and m :: member
  assume "getattr env name = Some m" and "m = M_normalize"
  then have n: "name = ''normalize''" by (simp add: getattr_normalize)
  have "sum_list (map weight (or_default (kw_normalizations kw))) < 10 + weight_kw kw"
  proof (cases kw)
    case (Kwargs a b c d e f g h i)
    then show ?thesis
      by (cases h rule: or_default.cases) (simp_all add: DEFAULT_NORMALIZATIONS_def)
  qed
  with n show "(Inl (env, s, t, or_default (kw_normalizations kw)), Inr (env, s, t, name, kw))
        \<in> measure dispatch_size"
    by (simp add: dispatch_size_def)
qed

declare call_attr.simps [simp del]

text \<open>\<^verbatim>\<open>normalize(text, normalizations=None)\<close> (lines 74-90).\<close>

definition normalize :: "env \<Rightarrow> state \<Rightarrow> pyval \<Rightarrow> step list option \<Rightarrow> state \<times> (error + pyval)" where
  "normalize env s text normalizations = run_steps env s text (or_default normalizations)"

section \<open>Notions of the specification\<close>

text \<open>The ten transformation operations of the specification's table.\<close>

definition operation_names :: "string list" where
  "operation_names =
     [''remove_accent_marks'', ''remove_extra_whitespaces'', ''remove_stop_words'',
      ''replace_emails'', ''replace_emojis'', ''replace_characters'', ''replace_hyphens'',
      ''replace_punctuation'', ''replace_symbols'', ''replace_urls'']"

text \<open>Every name the class body gives an instance: the operations, the other methods, the data.\<close>

definition class_attributes :: "string list" where
  "class_attributes =
     operation_names @
     [''normalize'', ''_load_stop_words'', ''_get_logger'', ''_parse_normalizations'',
      ''__init__''] @ data_attributes"

text \<open>
  Collapsing every run of whitespace to a single space, as the specification words it: a
  run at the start or at the end of the text becomes a space like any other.
\<close>

function collapse_runs :: "ustring \<Rightarrow> ustring" where
  "collapse_runs [] = []"
| "collapse_runs (c # cs) =
     (if is_space c then SPACE # collapse_runs (dropWhile is_space cs)
      else c # collapse_runs cs)"
  by pat_completeness auto
termination
  by (relation "measure length") (auto simp: less_Suc_eq_le length_dropWhile_le)

text \<open>
  The words of a stop-word resource, as the specification words it: every
  whitespace-delimited token of the part of each line before the first \<^verbatim>\<open>|\<close>.
\<close>

definition resource_words :: "ustring list \<Rightarrow> ustring set" where
  "resource_words lines =
     (\<Union>line \<in> set lines. set (split_ws (takeWhile (\<lambda>c. c \<noteq> 124) line)))"

text \<open>
  The tokens that survive stop-word removal, as the specification words it: the tokens
  between single spaces whose case-folded (or exact) form is not in the store.
\<close>

definition surviving :: "(ustring \<Rightarrow> ustring) \<Rightarrow> bool \<Rightarrow> ustring set \<Rightarrow> ustring \<Rightarrow> ustring list" where
  "surviving lower ignore_case sw t =
     filter (\<lambda>word. (if ignore_case then lower word else word) \<notin> sw) (split_sep SPACE t)"

text \<open>
  The state grows: no stop word is lost, and every cache entry stays, under its key and
  with its matcher.
\<close>

definition grows :: "state \<Rightarrow> state \<Rightarrow> bool" where
  "grows s s' =
     (stop_words s \<subseteq> stop_words s' \<and> characters_regexes s \<subseteq>\<^sub>m characters_regexes s')"

text \<open>
  A step list that names neither the constructor nor an attribute of the runtime's base
  object, in the list itself and in the lists its \<^verbatim>\<open>normalize\<close> steps carry.
\<close>

fun plain_step :: "env \<Rightarrow> step \<Rightarrow> bool" and plain_kwargs :: "env \<Rightarrow> kwargs \<Rightarrow> bool" where
  "plain_step env (Bare name) =
     (getattr env name \<noteq> Some M_init \<and> getattr env name \<noteq> Some M_runtime)"
| "plain_step env (Pair name kw) =
     (getattr env name \<noteq> Some M_init \<and> getattr env name \<noteq> Some M_runtime \<and>
      (if name = ''normalize'' then plain_kwargs env kw else True))"
| "plain_kwargs env (Kwargs a b c d e f g h i) =
     (case h of None \<Rightarrow> True | Some l \<Rightarrow> list_all (plain_step env) l)"

text \<open>The name of a step.\<close>

definition step_name :: "step \<Rightarrow> string" where
  "step_name st = fst (parse_normalization st)"

text \<open>
  A call of the public interface on an instance: one of the ten transformation operations
  with its arguments, or \<^verbatim>\<open>normalize\<close>. \<open>after\<close> is the instance after the call,
  whether the call returned or raised; seven of the operations never read or write the
  instance. A call is plain when it is not a \<^verbatim>\<open>normalize\<close> whose steps name the
  constructor or an attribute of the runtime's base object.
\<close>

datatype call =
    RemoveAccentMarks pyval ustring
  | RemoveExtraWhitespaces pyval
  | RemoveStopWords pyval bool
  | ReplaceEmails pyval ustring
  | ReplaceEmojis pyval ustring
  | ReplaceCharacters pyval ustring ustring
  | ReplaceHyphens pyval ustring
  | ReplacePunctuation pyval "ustring option" ustring
  | ReplaceSymbols pyval ustring ustring ustring
  | ReplaceUrls pyval ustring
  | Normalize pyval "step list option"

fun after :: "env \<Rightarrow> state \<Rightarrow> call \<Rightarrow> state" where
  "after env s (RemoveStopWords t ignore_case) = fst (remove_stop_words env s t ignore_case)"
| "after env s (ReplaceCharacters t characters replacement) =
     fst (replace_characters env s t characters replacement)"
| "after env s (ReplacePunctuation t excluded replacement) =
     fst (replace_punctuation env s t excluded replacement)"
| "after env s (Normalize t normalizations) = fst (normalize env s t normalizations)"
| "after env s _ = s"

fun plain_call :: "env \<Rightarrow> call \<Rightarrow> bool" where
  "plain_call env (Normalize t normalizations) =
     list_all (plain_step env) (or_default normalizations)"
| "plain_call env _ = True"

text \<open>The step \<^verbatim>\<open>('__init__', {'lazy_load': True})\<close>.\<close>

definition lazy_init :: step where
  "lazy_init = Pair ''__init__'' (Kwargs None None None None None (Some True) None None [])"

text \<open>
  The normal form of a text in the form \<open>f\<close>; the empty text is its own normal form.
\<close>

definition nf :: "env \<Rightarrow> nform \<Rightarrow> ustring \<Rightarrow> ustring" where
  "nf env f t = (if t = [] then [] else uni_normalize env f t)"

section \<open>An example environment\<close>

text \<open>
  A small environment to run the model on: one stop-word resource, for \<^verbatim>\<open>en\<close>;
  a file-system encoding that takes every code point but the surrogates that are not
  escapes of bytes (UTF-8 with \<^verbatim>\<open>surrogateescape\<close>);
  lower-casing of the ASCII letters; the Unicode tables for the ASCII characters, the
  letter e with acute accent (233), the combining acute accent (769) and the copyright
  sign (169); patterns that match nowhere; a runtime without further attributes.
\<close>

definition ascii_lower :: "ustring \<Rightarrow> ustring" where
  "ascii_lower t = map (\<lambda>c. if 65 \<le> c \<and> c \<le> 90 then c + 32 else c) t"

fun decompose :: "ustring \<Rightarrow> ustring" where
  "decompose [] = []"
| "decompose (c # cs) = (if c = 233 then 101 # 769 # decompose cs else c # decompose cs)"

fun compose :: "ustring \<Rightarrow> ustring" where
  "compose (c # d # cs) =
     (if c = 101 \<and> d = 769 then 233 # compose cs else c # compose (d # cs))"
| "compose cs = cs"

definition example_category :: "uchar \<Rightarrow> string" where
  "example_category c =
     (if c = 769 then ''Mn''
      else if c = 36 then ''Sc''
      else if c \<in> set [94, 96] then ''Sk''
      else if c \<in> set [43, 60, 61, 62, 124, 126] then ''Sm''
      else if c = 169 then ''So''
      else if c = 32 then ''Zs''
      else if 48 \<le> c \<and> c \<le> 57 then ''Nd''
      else if 65 \<le> c \<and> c \<le> 90 then ''Lu''
      else if 97 \<le> c \<and> c \<le> 122 \<or> c = 233 then ''Ll''
      else ''Po'')"

definition example_env :: env where
  "example_env = \<lparr>
     files = (\<lambda>l. if l = u ''en'' then Some [u ''a an the | articles'', u ''of in''] else None),
     fs_encodable = list_all (\<lambda>c. c < 55296 \<or> 57343 < c \<or> (56448 \<le> c \<and> c \<le> 56575)),
     str_lower = ascii_lower,
     uni_normalize = (\<lambda>f t. case f of NFC \<Rightarrow> compose t | NFKC \<Rightarrow> compose t
                              | NFD \<Rightarrow> decompose t | NFKD \<Rightarrow> decompose t),
     uni_category = example_category,
     re_sub = (\<lambda>p r t. t),
     re_template_ok = (\<lambda>p r. False),
     level_name = (\<lambda>n. n \<in> set (map u [''CRITICAL'', ''ERROR'', ''WARNING'', ''INFO'',
                                        ''DEBUG'', ''NOTSET''])),
     rt_attr = (\<lambda>n. False),
     rt_call = (\<lambda>n s t kw. (s, Inl TypeError)) \<rparr>"

text \<open>The instance \<^verbatim>\<open>Normalizr('en', lazy_load=True)\<close> in that environment.\<close>

definition lazy_en :: state where
  "lazy_en = blank\<lparr>language := Str (u ''en'')\<rparr>"

text \<open>The instance \<^verbatim>\<open>Normalizr('en')\<close> in that environment, its stop words loaded.\<close>

definition eager_en :: state where
  "eager_en = blank\<lparr>language := Str (u ''en''),
                     stop_words := {u ''a'', u ''an'', u ''the'', u ''of'', u ''in''}\<rparr>"

section \<open>Evaluating the model\<close>

lemmas eval_defs = normalize_def call_attr.simps getattr_def accepts_def given_def no_kwargs_def
  default_def DEFAULT_NORMALIZATIONS_def data_attributes_def
  remove_extra_whitespaces_def replace_punctuation_def replace_characters_def lookup_or_compile_def
  replace_symbols_def remove_stop_words_def load_stop_words_def remove_accent_marks_def
  replace_hyphens_def replace_emails_def replace_urls_def replace_emojis_def
  pattern_sub_def sub_string_def unicodedata_normalize_def nform_of_def get_logger_def
  open_error_def
  check_level_def init_def Normalizr_def blank_def INFO_def lazy_en_def
  split_ws.simps is_space_def SPACE_def BACKSLASH_def punctuation_def categories_def strip_def
  replace_char_def u_def example_env_def example_category_def ascii_lower_def Let_def

section \<open>Splitting and joining\<close>

lemma split_ws_Nil [simp]: "split_ws [] = []"
  by (simp add: split_ws.simps)

lemma split_ws_space [simp]: "is_space c \<Longrightarrow> split_ws (c # t) = split_ws t"
  by (simp add: split_ws.simps [of "c # t"] split_ws.simps [of t])

lemma split_ws_dropWhile: "split_ws (dropWhile is_space t) = split_ws t"
  by (induction t) simp_all

lemma split_ws_word:
  assumes "w \<noteq> []" and "\<forall>c \<in> set w. \<not> is_space c" and "r = [] \<or> is_space (hd r)"
  shows "split_ws (w @ r) = w # split_ws r"
proof -
  from assms(1) obtain c cs where w: "w = c # cs" by (cases w) auto
  with assms(2) have c: "\<not> is_space c" by simp
  have tw: "takeWhile (\<lambda>c. \<not> is_space c) (w @ r) = w"
    using assms(2,3) by (cases r) (simp_all add: takeWhile_append2 takeWhile_append)
  have dw: "dropWhile (\<lambda>c. \<not> is_space c) (w @ r) = r"
    using assms(2,3) by (cases r) (simp_all add: dropWhile_append2 dropWhile_append)
  have dws: "dropWhile is_space (w @ r) = w @ r" using c w by simp
  have "split_ws (w @ r) =
     (let r' = dropWhile is_space (w @ r) in
      if r' = [] then []
      else takeWhile (\<lambda>c. \<not> is_space c) r' # split_ws (dropWhile (\<lambda>c. \<not> is_space c) r'))"
    by (rule split_ws.simps)
  then show ?thesis
    using assms(1) by (simp only: dws tw dw Let_def) simp
qed

lemma split_ws_tokens:
  "w \<in> set (split_ws t) \<Longrightarrow> w \<noteq> [] \<and> (\<forall>c \<in> set w. \<not> is_space c)"
proof (induction t arbitrary: w rule: split_ws.induct)
  case (1 t)
  define r where "r = dropWhile is_space t"
  show ?case
  proof (cases "r = []")
    case True
    with "1.prems" show ?thesis by (simp add: split_ws.simps [of t] r_def)
  next
    case False
    then have hd: "\<not> is_space (hd r)" unfolding r_def by (metis hd_dropWhile)
    from "1.prems" False
    have "w = takeWhile (\<lambda>c. \<not> is_space c) r \<or> w \<in> set (split_ws (dropWhile (\<lambda>c. \<not> is_space c) r))"
      by (auto simp: split_ws.simps [of t] r_def Let_def split: if_splits)
    then show ?thesis
    proof
      assume w: "w = takeWhile (\<lambda>c. \<not> is_space c) r"
      from False hd have "w \<noteq> []" by (cases r) (simp_all add: w)
      moreover have "\<forall>c \<in> set w. \<not> is_space c" unfolding w by (auto dest: set_takeWhileD)
      ultimately show ?thesis by (rule conjI)
    next
      assume "w \<in> set (split_ws (dropWhile (\<lambda>c. \<not> is_space c) r))"
      then show ?thesis by (rule "1.IH" [OF r_def False])
    qed
  qed
qed

lemma join_Cons: "ws \<noteq> [] \<Longrightarrow> join sep (w # ws) = w @ sep @ join sep ws"
  by (cases ws) simp_all

lemma split_ws_join:
  "(\<forall>w \<in> set ws. w \<noteq> [] \<and> (\<forall>c \<in> set w. \<not> is_space c)) \<Longrightarrow> split_ws (join [SPACE] ws) = ws"
proof (induction ws)
  case Nil
  then show ?case by simp
next
  case (Cons w ws)
  have sp: "is_space SPACE" by (simp add: is_space_def SPACE_def)
  from Cons.prems have w: "w \<noteq> []" "\<forall>c \<in> set w. \<not> is_space c" by simp_all
  show ?case
  proof (cases "ws = []")
    case True
    then show ?thesis using split_ws_word [OF w, of "[]"] by simp
  next
    case False
    then have "join [SPACE] (w # ws) = w @ SPACE # join [SPACE] ws"
      by (simp add: join_Cons)
    moreover have "split_ws (w @ SPACE # join [SPACE] ws) = w # split_ws (SPACE # join [SPACE] ws)"
      using split_ws_word [OF w, of "SPACE # join [SPACE] ws"] sp by simp
    moreover have "split_ws (SPACE # join [SPACE] ws) = ws"
      using sp Cons by simp
    ultimately show ?thesis by simp
  qed
qed

lemma split_ws_idem: "split_ws (join [SPACE] (split_ws t)) = split_ws t"
proof (rule split_ws_join, rule ballI)
  fix w assume "w \<in> set (split_ws t)"
  then show "w \<noteq> [] \<and> (\<forall>c \<in> set w. \<not> is_space c)" by (rule split_ws_tokens)
qed


lemma collapse_runs_word:
  "\<forall>c \<in> set w. \<not> is_space c \<Longrightarrow> collapse_runs (w @ r) = w @ collapse_runs r"
  by (induction w) simp_all

lemma last_dropWhile: "dropWhile P t \<noteq> [] \<Longrightarrow> last (dropWhile P t) = last t"
  by (induction t) (auto split: if_splits)

lemma split_ws_eq_Nil: "(split_ws t = []) = (dropWhile is_space t = [])"
  by (simp add: split_ws.simps [of t] Let_def)

lemma join_split_ws_collapse:
  "t = [] \<or> \<not> is_space (last t) \<Longrightarrow>
     join [SPACE] (split_ws t) = collapse_runs (dropWhile is_space t)"
proof (induction t rule: split_ws.induct)
  case (1 t)
  define r where "r = dropWhile is_space t"
  define w where "w = takeWhile (\<lambda>c. \<not> is_space c) r"
  define rest where "rest = dropWhile (\<lambda>c. \<not> is_space c) r"
  show ?case
  proof (cases "r = []")
    case True
    then have d: "dropWhile is_space t = []" by (simp only: r_def)
    then have "split_ws t = []" by (simp only: split_ws_eq_Nil)
    then show ?thesis by (simp only: d) simp
  next
    case False
    have split: "split_ws t = w # split_ws rest"
      using False by (simp add: split_ws.simps [of t] r_def w_def rest_def Let_def)
    have r: "r = w @ rest" by (simp add: w_def rest_def)
    have w: "\<forall>c \<in> set w. \<not> is_space c" unfolding w_def by (auto dest: set_takeWhileD)
    have lastr: "last r = last t" unfolding r_def using False r_def by (simp add: last_dropWhile)
    from False "1.prems" have tl: "\<not> is_space (last t)" by (auto simp: r_def)
    have cr: "collapse_runs r = w @ collapse_runs rest"
      unfolding r using w by (rule collapse_runs_word)
    show ?thesis
    proof (cases "rest = []")
      case True
      then show ?thesis using split cr by (simp add: r_def)
    next
      case rne: False
      then obtain c cs where rest: "rest = c # cs" by (cases rest) auto
      have "\<not> (\<lambda>c. \<not> is_space c) (hd rest)"
        using rne unfolding rest_def by (rule hd_dropWhile)
      then have c: "is_space c" by (simp add: rest)
      have lastrest: "last rest = last t"
        using rne lastr unfolding rest_def by (simp add: last_dropWhile)
      then have nsl: "\<not> is_space (last rest)" using tl by simp
      then have pre: "rest = [] \<or> \<not> is_space (last rest)" by simp
      have ih: "join [SPACE] (split_ws rest) = collapse_runs (dropWhile is_space rest)"
        unfolding rest_def
        by (rule "1.IH" [OF r_def False]) (use pre in \<open>simp add: rest_def\<close>)
      have "last rest \<in> set rest" using rne by simp
      with nsl have "dropWhile is_space rest \<noteq> []" by (auto simp: dropWhile_eq_Nil_conv)
      then have ne: "split_ws rest \<noteq> []" by (simp add: split_ws_eq_Nil)
      have "join [SPACE] (split_ws t) = w @ [SPACE] @ join [SPACE] (split_ws rest)"
        unfolding split using ne by (rule join_Cons)
      also have "\<dots> = w @ SPACE # collapse_runs (dropWhile is_space cs)"
        by (simp only: ih) (simp add: rest c)
      also have "\<dots> = w @ collapse_runs rest" using c by (simp add: rest)
      also have "\<dots> = collapse_runs (dropWhile is_space t)" using cr by (simp add: r_def)
      finally show ?thesis .
    qed
  qed
qed

lemma takeWhile_snoc: "\<not> P c \<Longrightarrow> takeWhile P (r @ [c]) = takeWhile P r"
  by (induction r) simp_all

lemma dropWhile_snoc: "\<not> P c \<Longrightarrow> dropWhile P (r @ [c]) = dropWhile P r @ [c]"
  by (induction r) simp_all

lemma split_ws_snoc_space: "is_space c \<Longrightarrow> split_ws (t @ [c]) = split_ws t"
proof (induction t rule: split_ws.induct)
  case (1 t)
  define r where "r = dropWhile is_space t"
  show ?case
  proof (cases "r = []")
    case True
    then have d: "dropWhile is_space t = []" by (simp only: r_def)
    then have "dropWhile is_space (t @ [c]) = []"
      using "1.prems" by (auto simp: dropWhile_eq_Nil_conv)
    then have "split_ws (t @ [c]) = []" by (simp only: split_ws_eq_Nil)
    moreover from d have "split_ws t = []" by (simp only: split_ws_eq_Nil)
    ultimately show ?thesis by simp
  next
    case False
    then have d: "dropWhile is_space (t @ [c]) = r @ [c]"
      by (auto simp: r_def dropWhile_append dropWhile_eq_Nil_conv)
    have ih: "split_ws (dropWhile (\<lambda>c. \<not> is_space c) r @ [c])
              = split_ws (dropWhile (\<lambda>c. \<not> is_space c) r)"
      using r_def False "1.prems" by (rule "1.IH")
    have "split_ws (t @ [c]) =
            takeWhile (\<lambda>c. \<not> is_space c) (r @ [c])
              # split_ws (dropWhile (\<lambda>c. \<not> is_space c) (r @ [c]))"
      using False by (simp add: split_ws.simps [of "t @ [c]"] d Let_def)
    also have "\<dots> = takeWhile (\<lambda>c. \<not> is_space c) r
              # split_ws (dropWhile (\<lambda>c. \<not> is_space c) r)"
      using "1.prems" by (simp add: takeWhile_snoc dropWhile_snoc ih)
    also have "\<dots> = split_ws t"
      using False by (simp add: split_ws.simps [of t] r_def Let_def)
    finally show ?thesis .
  qed
qed

lemma split_ws_rstrip: "split_ws (rev (dropWhile is_space (rev x))) = split_ws x"
proof (induction x rule: rev_induct)
  case Nil
  then show ?case by simp
next
  case (snoc c ys)
  then show ?case by (simp add: split_ws_snoc_space)
qed

lemma split_ws_strip: "split_ws (strip t) = split_ws t"
  by (simp add: strip_def split_ws_rstrip split_ws_dropWhile)

lemma rstrip_prefix: "\<exists>z. x = rev (dropWhile P (rev x)) @ z"
proof -
  have "rev (dropWhile P (rev x)) @ rev (takeWhile P (rev x))
          = rev (takeWhile P (rev x) @ dropWhile P (rev x))"
    by (simp only: rev_append)
  also have "\<dots> = rev (rev x)" by (simp only: takeWhile_dropWhile_id)
  also have "\<dots> = x" by (rule rev_rev_ident)
  finally have "x = rev (dropWhile P (rev x)) @ rev (takeWhile P (rev x))" by (rule sym)
  then show ?thesis ..
qed

lemma strip_no_lead: "dropWhile is_space (strip t) = strip t"
proof (cases "strip t")
  case Nil
  then show ?thesis by simp
next
  case (Cons c cs)
  define x where "x = dropWhile is_space t"
  obtain z where z: "x = strip t @ z" using rstrip_prefix [of x is_space] by (auto simp: strip_def x_def)
  with Cons have "x \<noteq> []" and "hd x = c" by simp_all
  then have "\<not> is_space c" unfolding x_def using hd_dropWhile [of is_space t] by auto
  then show ?thesis by (simp add: Cons)
qed

lemma strip_no_trail: "strip t = [] \<or> \<not> is_space (last (strip t))"
proof (cases "strip t = []")
  case True
  then show ?thesis by simp
next
  case False
  define y where "y = dropWhile is_space (rev (dropWhile is_space t))"
  from False have "y \<noteq> []" by (simp add: strip_def y_def)
  then have "\<not> is_space (hd y)" unfolding y_def by (rule hd_dropWhile)
  moreover have "last (strip t) = hd y" using \<open>y \<noteq> []\<close> by (simp add: strip_def y_def last_rev)
  ultimately show ?thesis by simp
qed

lemma join_split_ws_strip: "join [SPACE] (split_ws t) = collapse_runs (strip t)"
proof -
  have "join [SPACE] (split_ws (strip t)) = collapse_runs (dropWhile is_space (strip t))"
    using strip_no_trail by (rule join_split_ws_collapse)
  then show ?thesis by (simp add: split_ws_strip strip_no_lead)
qed

section \<open>Whitespace\<close>

text \<open>
  C6. For every text \<open>t\<close>, \<^verbatim>\<open>remove_extra_whitespaces\<close> is idempotent, and it collapses
  the runs of whitespace to single spaces. As amended: the runs inside the text become
  single spaces, and leading and trailing whitespace is removed, not collapsed. The result
  is \<open>collapse_runs\<close> of the stripped text, and applying the operation to it again
  returns it unchanged.
\<close>

theorem remove_extra_whitespaces_idempotent:
  "remove_extra_whitespaces (Str t) = Inr (Str (collapse_runs (strip t))) \<and>
   remove_extra_whitespaces (Str (collapse_runs (strip t))) = Inr (Str (collapse_runs (strip t)))"
proof -
  have once: "join [SPACE] (split_ws t) = collapse_runs (strip t)"
    by (rule join_split_ws_strip)
  have "join [SPACE] (split_ws (join [SPACE] (split_ws t))) = join [SPACE] (split_ws t)"
    by (simp only: split_ws_idem)
  then have twice: "join [SPACE] (split_ws (collapse_runs (strip t))) = collapse_runs (strip t)"
    by (simp only: once)
  show ?thesis
    by (simp add: remove_extra_whitespaces_def once twice)
qed

theorem remove_extra_whitespaces_idempotent_witness:
  "remove_extra_whitespaces (Str (u ''  a   b '')) = Inr (Str (u ''a b'')) \<and>
   remove_extra_whitespaces (Str (u ''a b'')) = Inr (Str (u ''a b''))"
proof -
  have "collapse_runs (strip (u ''  a   b '')) = u ''a b''"
    by (simp add: strip_def is_space_def SPACE_def u_def)
  then show ?thesis
    using remove_extra_whitespaces_idempotent [of "u ''  a   b ''"] by simp
qed

text \<open>
  The claim as it stands fails on a text with leading whitespace: collapsing the leading
  run of \<open>" a"\<close> to a single space leaves \<open>" a"\<close>, and the operation returns \<open>"a"\<close>.
\<close>

theorem remove_extra_whitespaces_leading_counterexample:
  "remove_extra_whitespaces (Str (u '' a'')) = Inr (Str (u ''a'')) \<and>
   collapse_runs (u '' a'') = u '' a'' \<and> u '' a'' \<noteq> u ''a''"
  by (simp add: remove_extra_whitespaces_def split_ws.simps is_space_def SPACE_def u_def)

section \<open>The pipeline\<close>

text \<open>
  C10. For every input text, \<^verbatim>\<open>normalize\<close> with an explicitly passed empty step list
  behaves as with the step list omitted: the default pipeline is applied, not zero steps.
\<close>

theorem normalize_empty_list_is_default:
  "normalize env s text (Some []) = normalize env s text None"
  by (simp add: normalize_def)

theorem normalize_empty_list_is_default_witness:
  "normalize example_env lazy_en (Str (u '' The  of x! '')) (Some [])
     = normalize example_env lazy_en (Str (u '' The  of x! '')) None
   \<and> snd (normalize example_env lazy_en (Str (u '' The  of x! '')) (Some [])) = Inr (Str (u ''x''))"
  using normalize_empty_list_is_default [of example_env lazy_en "Str (u '' The  of x! '')"]
  by (simp add: eval_defs)

lemma default_pipeline_unfold:
  "normalize env s text None =
     (case remove_extra_whitespaces text of
        Inl e \<Rightarrow> (s, Inl e)
      | Inr t1 \<Rightarrow>
          (case replace_punctuation env s t1 None [] of
             (s2, Inl e) \<Rightarrow> (s2, Inl e)
           | (s2, Inr t2) \<Rightarrow>
               (case replace_symbols env t2 (u ''NFKD'') [] [] of
                  Inl e \<Rightarrow> (s2, Inl e)
                | Inr t3 \<Rightarrow> remove_stop_words env s2 t3 True)))"
  by (simp add: normalize_def DEFAULT_NORMALIZATIONS_def call_attr.simps getattr_def accepts_def
      given_def no_kwargs_def default_def split: sum.splits prod.splits)

text \<open>
  C2. For every input text, \<^verbatim>\<open>normalize\<close> with the steps omitted applies exactly
  \<^verbatim>\<open>remove_extra_whitespaces\<close>, \<^verbatim>\<open>replace_punctuation\<close>, \<^verbatim>\<open>replace_symbols\<close> and
  \<^verbatim>\<open>remove_stop_words\<close>, in that order, each with its default options, each on the
  result of the one before, and returns the text after the last; the first exception ends
  the call.
\<close>

theorem normalize_default_pipeline:
  "normalize env s text None =
     (case remove_extra_whitespaces text of
        Inl e \<Rightarrow> (s, Inl e)
      | Inr t1 \<Rightarrow>
          (case replace_punctuation env s t1 None [] of
             (s2, Inl e) \<Rightarrow> (s2, Inl e)
           | (s2, Inr t2) \<Rightarrow>
               (case replace_symbols env t2 (u ''NFKD'') [] [] of
                  Inl e \<Rightarrow> (s2, Inl e)
                | Inr t3 \<Rightarrow> remove_stop_words env s2 t3 True)))"
  by (rule default_pipeline_unfold)

theorem normalize_default_pipeline_witness:
  "snd (normalize example_env lazy_en (Str (u ''  Hello   World!  '')) None)
     = Inr (Str (u ''Hello World''))"
proof -
  have "(case remove_extra_whitespaces (Str (u ''  Hello   World!  '')) of
        Inl e \<Rightarrow> (lazy_en, Inl e)
      | Inr t1 \<Rightarrow>
          (case replace_punctuation example_env lazy_en t1 None [] of
             (s2, Inl e) \<Rightarrow> (s2, Inl e)
           | (s2, Inr t2) \<Rightarrow>
               (case replace_symbols example_env t2 (u ''NFKD'') [] [] of
                  Inl e \<Rightarrow> (s2, Inl e)
                | Inr t3 \<Rightarrow> remove_stop_words example_env s2 t3 True)))
        = (\<lparr>language = Str (u ''en''),
            stop_words = {u ''a'', u ''an'', u ''the'', u ''of'', u ''in''},
            characters_regexes = [punctuation \<mapsto> Matcher 0 punctuation],
            next_id = 1\<rparr>, Inr (Str (u ''Hello World'')))"
    by (simp add: eval_defs insert_commute)
  then show ?thesis
    using normalize_default_pipeline [of example_env lazy_en "Str (u ''  Hello   World!  '')"]
    by simp
qed

section \<open>Custom characters\<close>

text \<open>
  C4. For every input text \<open>t\<close> and every replacement string, \<^verbatim>\<open>replace_characters\<close>
  with an empty \<^verbatim>\<open>characters\<close> argument returns \<open>t\<close> unchanged: no error, and no
  change of the instance.
\<close>

theorem replace_characters_empty:
  "replace_characters env s text [] replacement = (s, Inr text)"
  by (simp add: replace_characters_def)

theorem replace_characters_empty_witness:
  "replace_characters example_env lazy_en (Str (u ''a,b;c'')) [] (u ''-'')
     = (lazy_en, Inr (Str (u ''a,b;c'')))"
  using replace_characters_empty [of example_env lazy_en "Str (u ''a,b;c'')" "u ''-''"]
  by simp

section \<open>Stop words\<close>

lemma kept_words_filter:
  "kept_words lower ic sw ws = filter (\<lambda>word. (if ic then lower word else word) \<notin> sw) ws"
  by (induction ws) simp_all

lemma strip_token: "\<forall>c \<in> set w. \<not> is_space c \<Longrightarrow> strip w = w"
proof -
  assume a: "\<forall>c \<in> set w. \<not> is_space c"
  then have "dropWhile is_space w = w" by (cases w) simp_all
  moreover from a have "dropWhile is_space (rev w) = rev w" by (cases "rev w") (auto simp: rev_swap)
  ultimately show ?thesis by (simp add: strip_def)
qed

lemma add_words_tokens:
  "\<forall>w \<in> set ws. \<forall>c \<in> set w. \<not> is_space c \<Longrightarrow> add_words ws S = S \<union> set ws"
  by (induction ws arbitrary: S) (auto simp: strip_token)

lemma add_words_split_ws: "add_words (split_ws f) S = S \<union> set (split_ws f)"
  by (rule add_words_tokens) (blast dest: split_ws_tokens)

lemma split_sep_hd: "\<exists>rest. split_sep sep t = takeWhile (\<lambda>c. c \<noteq> sep) t # rest"
  by (induction t) (auto split: list.splits)

lemma load_lines_resource_words: "load_lines lines S = S \<union> resource_words lines"
proof (induction lines arbitrary: S)
  case Nil
  then show ?case by (simp add: resource_words_def)
next
  case (Cons line rest)
  obtain fs where fs: "split_sep 124 line = takeWhile (\<lambda>c. c \<noteq> 124) line # fs"
    using split_sep_hd by blast
  have "load_lines (line # rest) S
          = load_lines rest (add_words (split_ws (takeWhile (\<lambda>c. c \<noteq> 124) line)) S)"
    by (simp add: fs)
  also have "\<dots> = (S \<union> set (split_ws (takeWhile (\<lambda>c. c \<noteq> 124) line))) \<union> resource_words rest"
    by (simp only: Cons.IH add_words_split_ws)
  also have "\<dots> = S \<union> resource_words (line # rest)"
    by (auto simp: resource_words_def)
  finally show ?case .
qed

lemma split_sep_tokens: "w \<in> set (split_sep sep t) \<Longrightarrow> sep \<notin> set w"
  by (induction t arbitrary: w) (auto split: if_splits list.splits)

lemma split_sep_word: "sep \<notin> set w \<Longrightarrow> split_sep sep (w @ sep # r) = w # split_sep sep r"
  by (induction w) (auto split: list.splits)

lemma split_sep_last: "sep \<notin> set w \<Longrightarrow> split_sep sep w = [w]"
  by (induction w) (auto split: list.splits)

lemma split_sep_join:
  "ws \<noteq> [] \<Longrightarrow> \<forall>w \<in> set ws. sep \<notin> set w \<Longrightarrow> split_sep sep (join [sep] ws) = ws"
proof (induction ws)
  case Nil
  then show ?case by simp
next
  case (Cons w ws)
  show ?case
  proof (cases "ws = []")
    case True
    with Cons.prems show ?thesis by (simp add: split_sep_last)
  next
    case False
    with Cons show ?thesis by (simp add: join_Cons split_sep_word)
  qed
qed

lemma surviving_tokens: "w \<in> set (surviving lower ic sw t) \<Longrightarrow> SPACE \<notin> set w"
  by (auto simp: surviving_def dest: split_sep_tokens)

text \<open>
  C3. For every input text, \<^verbatim>\<open>remove_stop_words\<close> splits the text on single spaces,
  drops each token whose case-folded form (its exact form when \<^verbatim>\<open>ignore_case\<close> is
  false) is in the stop-word store, and joins the surviving tokens with single spaces; the
  surviving tokens are a subsequence of the tokens of the input, and are the tokens of the
  output; an empty store is loaded from the resource of the language before the
  filtering, and holds the words of that resource afterwards.
\<close>

theorem remove_stop_words_filters_in_order:
  "(stop_words s = {} \<longrightarrow> language s = Str l \<and> files env l = Some lines) \<longrightarrow>
   (let sw = (if stop_words s = {} then resource_words lines else stop_words s);
        kept = surviving (str_lower env) ignore_case sw t
    in remove_stop_words env s (Str t) ignore_case
         = (s\<lparr>stop_words := sw\<rparr>, Inr (Str (join [SPACE] kept)))
       \<and> subseq kept (split_sep SPACE t)
       \<and> (kept \<noteq> [] \<longrightarrow> split_sep SPACE (join [SPACE] kept) = kept))"
proof (intro impI)
  assume a: "stop_words s = {} \<longrightarrow> language s = Str l \<and> files env l = Some lines"
  define sw where "sw = (if stop_words s = {} then resource_words lines else stop_words s)"
  define kept where "kept = surviving (str_lower env) ignore_case sw t"
  have res: "remove_stop_words env s (Str t) ignore_case
         = (s\<lparr>stop_words := sw\<rparr>, Inr (Str (join [SPACE] kept)))"
  proof (cases "stop_words s = {}")
    case True
    with a show ?thesis
      by (simp add: remove_stop_words_def load_stop_words_def load_lines_resource_words
          kept_words_filter surviving_def sw_def kept_def)
  next
    case False
    then show ?thesis
      by (simp add: remove_stop_words_def kept_words_filter surviving_def sw_def kept_def)
  qed
  have sub: "subseq kept (split_sep SPACE t)"
    by (simp add: kept_def surviving_def)
  have again: "kept \<noteq> [] \<longrightarrow> split_sep SPACE (join [SPACE] kept) = kept"
  proof
    assume "kept \<noteq> []"
    moreover have "\<forall>w \<in> set kept. SPACE \<notin> set w"
      unfolding kept_def by (blast dest: surviving_tokens)
    ultimately show "split_sep SPACE (join [SPACE] kept) = kept" by (rule split_sep_join)
  qed
  from res sub again show "let sw = (if stop_words s = {} then resource_words lines else stop_words s);
        kept = surviving (str_lower env) ignore_case sw t
    in remove_stop_words env s (Str t) ignore_case
         = (s\<lparr>stop_words := sw\<rparr>, Inr (Str (join [SPACE] kept)))
       \<and> subseq kept (split_sep SPACE t)
       \<and> (kept \<noteq> [] \<longrightarrow> split_sep SPACE (join [SPACE] kept) = kept)"
    by (simp only: Let_def sw_def kept_def) 
qed

theorem remove_stop_words_filters_in_order_witness:
  "stop_words lazy_en = {} \<and> language lazy_en = Str (u ''en'') \<and>
   files example_env (u ''en'') = Some [u ''a an the | articles'', u ''of in''] \<and>
   remove_stop_words example_env lazy_en (Str (u ''The cat of  x'')) True
     = (lazy_en\<lparr>stop_words := {u ''a'', u ''an'', u ''the'', u ''of'', u ''in''}\<rparr>,
        Inr (Str (u ''cat  x'')))"
  using remove_stop_words_filters_in_order
      [of lazy_en "u ''en''" example_env "[u ''a an the | articles'', u ''of in'']"
          True "u ''The cat of  x''"]
  by (simp add: eval_defs resource_words_def surviving_def insert_commute)

section \<open>Accent marks\<close>

lemma unmarked_filter:
  "unmarked env excluded t = filter (\<lambda>c. uni_category env c \<noteq> ''Mn'' \<or> c \<in> set excluded) t"
  by (induction t) simp_all

lemma nform_of_simps [simp]:
  "nform_of (u ''NFKD'') = Some NFKD" "nform_of (u ''NFKC'') = Some NFKC"
  by (simp_all add: nform_of_def u_def)

lemma unicodedata_normalize_Str:
  "unicodedata_normalize env (u ''NFKD'') (Str t) = Inr (nf env NFKD t)"
  "unicodedata_normalize env (u ''NFKC'') (Str t) = Inr (nf env NFKC t)"
  by (simp_all add: unicodedata_normalize_def nf_def)

text \<open>
  C7. For every input text and excluded set, \<^verbatim>\<open>remove_accent_marks\<close> decomposes the
  text (NFKD), drops every character of category Mn that is not excluded, and recomposes
  (NFKC). With the Unicode tables' entries for the five characters concerned, the text
  c, a, f, e-acute (233) becomes \<open>cafe\<close>.
\<close>

theorem remove_accent_marks_decompose_drop_compose:
  "remove_accent_marks env (Str t) excluded
     = Inr (Str (nf env NFKC
         (filter (\<lambda>c. uni_category env c \<noteq> ''Mn'' \<or> c \<in> set excluded) (nf env NFKD t))))
   \<and> (uni_normalize env NFKD [99, 97, 102, 233] = [99, 97, 102, 101, 769] \<and>
      uni_normalize env NFKC [99, 97, 102, 101] = [99, 97, 102, 101] \<and>
      uni_category env 769 = ''Mn'' \<and>
      uni_category env 99 \<noteq> ''Mn'' \<and> uni_category env 97 \<noteq> ''Mn'' \<and>
      uni_category env 102 \<noteq> ''Mn'' \<and> uni_category env 101 \<noteq> ''Mn''
      \<longrightarrow> remove_accent_marks env (Str [99, 97, 102, 233]) [] = Inr (Str (u ''cafe'')))"
proof
  show general: "remove_accent_marks env (Str t) excluded
     = Inr (Str (nf env NFKC
         (filter (\<lambda>c. uni_category env c \<noteq> ''Mn'' \<or> c \<in> set excluded) (nf env NFKD t))))"
    for t excluded
    by (simp add: remove_accent_marks_def unicodedata_normalize_Str unmarked_filter)
  show "uni_normalize env NFKD [99, 97, 102, 233] = [99, 97, 102, 101, 769] \<and>
      uni_normalize env NFKC [99, 97, 102, 101] = [99, 97, 102, 101] \<and>
      uni_category env 769 = ''Mn'' \<and>
      uni_category env 99 \<noteq> ''Mn'' \<and> uni_category env 97 \<noteq> ''Mn'' \<and>
      uni_category env 102 \<noteq> ''Mn'' \<and> uni_category env 101 \<noteq> ''Mn''
      \<longrightarrow> remove_accent_marks env (Str [99, 97, 102, 233]) [] = Inr (Str (u ''cafe''))"
    by (simp add: general nf_def u_def)
qed

theorem remove_accent_marks_decompose_drop_compose_witness:
  "remove_accent_marks example_env (Str [99, 97, 102, 233]) [] = Inr (Str (u ''cafe''))
   \<and> uni_normalize example_env NFKD [99, 97, 102, 233] = [99, 97, 102, 101, 769]
   \<and> uni_category example_env 769 = ''Mn''"
  using remove_accent_marks_decompose_drop_compose [of example_env "[99, 97, 102, 233]" "[]"]
  by (simp add: example_env_def example_category_def u_def nf_def)

section \<open>A missing stop-word resource\<close>











section \<open>The character-class cache\<close>




lemma replace_characters_state:
  "characters \<noteq> [] \<Longrightarrow>
   fst (replace_characters env s text characters replacement)
     = fst (lookup_or_compile s (sort characters))"
  by (simp add: replace_characters_def split: prod.splits)

section \<open>Unknown steps\<close>

lemma run_steps_append:
  "run_steps env s t (xs @ ys) =
     (case run_steps env s t xs of
        (s', Inl e) \<Rightarrow> (s', Inl e)
      | (s', Inr t') \<Rightarrow> run_steps env s' t' ys)"
  by (induction xs arbitrary: s t) (simp_all split: prod.splits sum.splits)

lemma getattr_None:
  "(getattr env name = None) = (name \<notin> set class_attributes \<and> \<not> rt_attr env name)"
  unfolding getattr_def class_attributes_def operation_names_def data_attributes_def
  by simp

lemma call_attr_unknown:
  "getattr env name = None \<Longrightarrow> call_attr env s t name kw = (s, Inl UnknownOperationError)"
  by (simp add: call_attr.simps)

text \<open>
  C1. For every input text and every step list with a step whose name matches no
  transformation operation, \<^verbatim>\<open>normalize\<close> raises \<open>UnknownOperationError\<close>, and the
  failing step leaves the stop-word set and the cache unchanged. As amended: the steps run
  in order, so the steps before must have succeeded; and the name is looked up among all
  attributes of the instance, so it must be none of them (not an operation, not another
  method or data attribute of the class, not an attribute of the runtime's base object).
  Then \<^verbatim>\<open>normalize\<close> raises \<open>UnknownOperationError\<close>, whatever follows the step, and
  the instance is as the steps before left it: the failing step changes nothing.
\<close>

theorem unknown_step_raises:
  "run_steps env s text before = (s', Inr text') \<and>
   step_name st \<notin> set class_attributes \<and> \<not> rt_attr env (step_name st) \<longrightarrow>
     normalize env s text (Some (before @ st # rest)) = (s', Inl UnknownOperationError)"
proof
  assume a: "run_steps env s text before = (s', Inr text') \<and>
   step_name st \<notin> set class_attributes \<and> \<not> rt_attr env (step_name st)"
  then have "getattr env (fst (parse_normalization st)) = None"
    by (simp add: getattr_None step_name_def)
  then have "run_steps env s' text' (st # rest) = (s', Inl UnknownOperationError)"
    by (simp add: call_attr_unknown)
  moreover have "or_default (Some (before @ st # rest)) = before @ st # rest"
    by (cases before) simp_all
  ultimately show "normalize env s text (Some (before @ st # rest)) = (s', Inl UnknownOperationError)"
    using a by (simp add: normalize_def run_steps_append)
qed

theorem unknown_step_raises_witness:
  "run_steps example_env lazy_en (Str (u ''x!'')) [Bare ''replace_punctuation'']
     = (lazy_en\<lparr>characters_regexes := [punctuation \<mapsto> Matcher 0 punctuation], next_id := 1\<rparr>,
        Inr (Str (u ''x'')))
   \<and> step_name (Bare ''bogus'') \<notin> set class_attributes
   \<and> \<not> rt_attr example_env (step_name (Bare ''bogus''))
   \<and> normalize example_env lazy_en (Str (u ''x!''))
         (Some ([Bare ''replace_punctuation''] @ Bare ''bogus'' # [Bare ''remove_stop_words'']))
     = (lazy_en\<lparr>characters_regexes := [punctuation \<mapsto> Matcher 0 punctuation], next_id := 1\<rparr>,
        Inl UnknownOperationError)"
proof -
  have r: "run_steps example_env lazy_en (Str (u ''x!'')) [Bare ''replace_punctuation'']
     = (lazy_en\<lparr>characters_regexes := [punctuation \<mapsto> Matcher 0 punctuation], next_id := 1\<rparr>,
        Inr (Str (u ''x'')))"
    by (simp add: eval_defs)
  have n: "step_name (Bare ''bogus'') \<notin> set class_attributes
           \<and> \<not> rt_attr example_env (step_name (Bare ''bogus''))"
    by (simp add: step_name_def class_attributes_def operation_names_def data_attributes_def
        example_env_def)
  from unknown_step_raises
         [of example_env lazy_en "Str (u ''x!'')" "[Bare ''replace_punctuation'']"
             "lazy_en\<lparr>characters_regexes := [punctuation \<mapsto> Matcher 0 punctuation], next_id := 1\<rparr>"
             "Str (u ''x'')" "Bare ''bogus''" "[Bare ''remove_stop_words'']"]
       r n
  show ?thesis by blast
qed

text \<open>
  The claim as it stands fails in three ways. A step before the unknown one can raise
  first: a bare \<^verbatim>\<open>replace_characters\<close> lacks its required argument. A step before
  it can change the instance before the unknown one raises: \<^verbatim>\<open>replace_punctuation\<close>
  adds a matcher to the cache. And a name that is no transformation operation can be an
  attribute all the same: the step \<^verbatim>\<open>_load_stop_words\<close> raises nothing, takes the
  text for a language code and loads its stop words.
\<close>

theorem unknown_step_counterexample:
  "''bogus'' \<notin> set operation_names \<and>
   snd (normalize example_env lazy_en (Str (u ''x!''))
          (Some [Bare ''replace_characters'', Bare ''bogus''])) = Inl InvalidOptionError \<and>
   normalize example_env lazy_en (Str (u ''x!'')) (Some [Bare ''replace_punctuation'', Bare ''bogus''])
     = (lazy_en\<lparr>characters_regexes := [punctuation \<mapsto> Matcher 0 punctuation], next_id := 1\<rparr>,
        Inl UnknownOperationError) \<and>
   ''_load_stop_words'' \<notin> set operation_names \<and>
   normalize example_env lazy_en (Str (u ''en'')) (Some [Bare ''_load_stop_words''])
     = (eager_en, Inr NoneV) \<and>
   lazy_en \<noteq> eager_en"
proof -
  have "lazy_en \<noteq> eager_en"
  proof
    assume "lazy_en = eager_en"
    then have "stop_words lazy_en = stop_words eager_en" by simp
    then show False by (simp add: lazy_en_def eager_en_def blank_def)
  qed
  then show ?thesis
    by (simp add: eval_defs eager_en_def operation_names_def insert_commute)
qed

section \<open>The state only grows\<close>

lemma grows_refl [simp]: "grows s s"
  by (simp add: grows_def)

lemma grows_trans: "grows a b \<Longrightarrow> grows b c \<Longrightarrow> grows a c"
  unfolding grows_def by (blast intro: map_le_trans)

lemma load_lines_superset: "S \<subseteq> load_lines lines S"
  by (simp add: load_lines_resource_words)

lemma grows_load_stop_words: "grows s (fst (load_stop_words env s lang))"
  by (auto simp: load_stop_words_def grows_def load_lines_resource_words
      split: pyval.splits option.splits)

lemma grows_remove_stop_words: "grows s (fst (remove_stop_words env s t ic))"
proof (cases "stop_words s = {}")
  case True
  obtain s' r where l: "load_stop_words env s (language s) = (s', r)"
    by (cases "load_stop_words env s (language s)")
  then have "grows s s'" using grows_load_stop_words [of s env "language s"] by simp
  with True l show ?thesis
    by (simp add: remove_stop_words_def split: sum.splits pyval.splits)
next
  case False
  then show ?thesis
    by (simp add: remove_stop_words_def split: pyval.splits)
qed

lemma grows_lookup_or_compile: "grows s (fst (lookup_or_compile s key))"
  by (auto simp: lookup_or_compile_def grows_def Let_def map_le_def split: option.splits)

lemma grows_replace_characters: "grows s (fst (replace_characters env s t cs r))"
proof (cases "cs = []")
  case True
  then show ?thesis by (simp add: replace_characters_def)
next
  case False
  then show ?thesis
    by (simp add: replace_characters_state grows_lookup_or_compile)
qed

lemma grows_replace_punctuation: "grows s (fst (replace_punctuation env s t ex r))"
  by (simp add: replace_punctuation_def Let_def grows_replace_characters)

lemma plain_default: "list_all (plain_step env) DEFAULT_NORMALIZATIONS"
  by (simp add: DEFAULT_NORMALIZATIONS_def getattr_def)

lemma plain_or_default:
  "plain_kwargs env kw \<Longrightarrow> list_all (plain_step env) (or_default (kw_normalizations kw))"
proof (cases kw)
  case (Kwargs a b c d e f g h i)
  assume "plain_kwargs env kw"
  with Kwargs show ?thesis
    by (cases h rule: or_default.cases) (simp_all add: plain_default)
qed

lemma plain_parse:
  "plain_step env st \<Longrightarrow>
     getattr env (fst (parse_normalization st)) \<noteq> Some M_init \<and>
     getattr env (fst (parse_normalization st)) \<noteq> Some M_runtime \<and>
     (fst (parse_normalization st) = ''normalize'' \<longrightarrow> plain_kwargs env (snd (parse_normalization st)))"
  by (cases st) (simp_all add: no_kwargs_def)

lemma grows_dispatch:
  "list_all (plain_step env) steps \<Longrightarrow> grows s (fst (run_steps env s t steps))"
  "getattr env name \<noteq> Some M_init \<Longrightarrow> getattr env name \<noteq> Some M_runtime \<Longrightarrow>
     (name = ''normalize'' \<longrightarrow> plain_kwargs env kw) \<Longrightarrow>
     grows s (fst (call_attr env s t name kw))"
proof (induction env s t steps and env s t name kw rule: run_steps_call_attr.induct)
  case (1 env s t)
  then show ?case by simp
next
  case (2 env s t st rest)
  from "2.prems" have st: "plain_step env st" and rest: "list_all (plain_step env) rest"
    by simp_all
  obtain x y where c: "call_attr env s t (fst (parse_normalization st))
                         (snd (parse_normalization st)) = (x, y)"
    by (cases "call_attr env s t (fst (parse_normalization st)) (snd (parse_normalization st))")
  have "grows s (fst (call_attr env s t (fst (parse_normalization st))
                         (snd (parse_normalization st))))"
    using plain_parse [OF st] by (intro "2.IH"(1)) simp_all
  then have g1: "grows s x" by (simp add: c)
  show ?case
  proof (cases y)
    case (Inl e)
    then show ?thesis using g1 c by simp
  next
    case (Inr b)
    have "grows x (fst (run_steps env x b rest))"
      using c [symmetric] Inr rest by (rule "2.IH"(2))
    with g1 have "grows s (fst (run_steps env x b rest))" by (rule grows_trans)
    then show ?thesis using c Inr by simp
  qed
next
  case (3 env s t name kw)
  show ?case
  proof (cases "getattr env name")
    case None
    then show ?thesis by (simp add: call_attr.simps)
  next
    case (Some m)
    show ?thesis
    proof (cases "m = M_normalize")
      case True
      show ?thesis
      proof (cases "accepts [''normalizations''] kw")
        case acc: True
        from Some True have "name = ''normalize''" by (simp add: getattr_normalize)
        with "3.prems" have "plain_kwargs env kw" by simp
        then have "list_all (plain_step env) (or_default (kw_normalizations kw))"
          by (rule plain_or_default)
        with Some True acc
        have "grows s (fst (run_steps env s t (or_default (kw_normalizations kw))))"
          by (rule "3.IH")
        then show ?thesis using Some True acc by (simp add: call_attr.simps)
      next
        case False
        then show ?thesis using Some True by (simp add: call_attr.simps)
      qed
    next
      case False
      with Some "3.prems" show ?thesis
        by (cases m)
          (simp_all add: call_attr.simps grows_remove_stop_words grows_replace_characters
             grows_replace_punctuation grows_load_stop_words split: option.splits)
    qed
  qed
qed

lemma grows_after: "plain_call env c \<Longrightarrow> grows s (after env s c)"
  by (cases c)
    (simp_all add: grows_remove_stop_words grows_replace_characters grows_replace_punctuation
       normalize_def grows_dispatch(1))

lemma grows_calls: "list_all (plain_call env) cs \<Longrightarrow> grows s (foldl (after env) s cs)"
proof (induction cs arbitrary: s)
  case Nil
  then show ?case by simp
next
  case (Cons c cs)
  then have "grows s (after env s c)" by (simp add: grows_after)
  moreover from Cons have "grows (after env s c) (foldl (after env) (after env s c) cs)" by simp
  ultimately show ?case by (simp add: grows_trans)
qed


text \<open>
  C9. Every operation on an instance keeps its state growing: the stop-word set never
  shrinks and the cache only gains entries, none evicted or replaced. As amended: this
  holds for every plain call, and so for every sequence of plain calls: each of the ten
  transformation operations, and \<^verbatim>\<open>normalize\<close> with steps that name neither the
  constructor \<^verbatim>\<open>__init__\<close> nor an attribute of the runtime's base object, in the
  list itself or in a list one of its \<^verbatim>\<open>normalize\<close> steps carries.
\<close>

theorem state_grows:
  "(plain_call env c \<longrightarrow> grows s (after env s c)) \<and>
   (list_all (plain_call env) cs \<longrightarrow> grows s (foldl (after env) s cs))"
  by (simp add: grows_after grows_calls)

theorem state_grows_witness:
  "list_all (plain_call example_env)
     [RemoveStopWords (Str (u ''the x'')) True,
      Normalize (Str (u ''a-b'')) (Some [Pair ''replace_characters''
         (Kwargs None None None (Some (u ''-'')) None None None None [])])] \<and>
   foldl (after example_env) lazy_en
     [RemoveStopWords (Str (u ''the x'')) True,
      Normalize (Str (u ''a-b'')) (Some [Pair ''replace_characters''
         (Kwargs None None None (Some (u ''-'')) None None None None [])])]
     = eager_en\<lparr>characters_regexes := [u ''-'' \<mapsto> Matcher 0 (u ''-'')], next_id := 1\<rparr> \<and>
   grows lazy_en
     (eager_en\<lparr>characters_regexes := [u ''-'' \<mapsto> Matcher 0 (u ''-'')], next_id := 1\<rparr>)"
proof -
  have h: "list_all (plain_call example_env)
     [RemoveStopWords (Str (u ''the x'')) True,
      Normalize (Str (u ''a-b'')) (Some [Pair ''replace_characters''
         (Kwargs None None None (Some (u ''-'')) None None None None [])])]"
    by (simp add: getattr_def)
  have st: "foldl (after example_env) lazy_en
     [RemoveStopWords (Str (u ''the x'')) True,
      Normalize (Str (u ''a-b'')) (Some [Pair ''replace_characters''
         (Kwargs None None None (Some (u ''-'')) None None None None [])])]
     = eager_en\<lparr>characters_regexes := [u ''-'' \<mapsto> Matcher 0 (u ''-'')], next_id := 1\<rparr>"
    by (simp add: eval_defs eager_en_def insert_commute)
  from state_grows
         [of example_env "Normalize (Str (u ''a-b'')) None" lazy_en
             "[RemoveStopWords (Str (u ''the x'')) True,
               Normalize (Str (u ''a-b'')) (Some [Pair ''replace_characters''
                 (Kwargs None None None (Some (u ''-'')) None None None None [])])]"]
       h
  have "grows lazy_en (foldl (after example_env) lazy_en
     [RemoveStopWords (Str (u ''the x'')) True,
      Normalize (Str (u ''a-b'')) (Some [Pair ''replace_characters''
         (Kwargs None None None (Some (u ''-'')) None None None None [])])])"
    by blast
  with h st show ?thesis by simp
qed

text \<open>
  The claim as it stands fails for \<^verbatim>\<open>normalize\<close> with a step that names the
  constructor: the dispatcher calls it like any attribute, with the text as the language
  code, and it empties the stop-word set and the cache.
\<close>

theorem reinitialised_counterexample:
  "Normalizr example_env (Str (u ''en'')) False INFO = Inr eager_en \<and>
   normalize example_env eager_en (Str (u ''x'')) (Some [lazy_init])
     = (blank\<lparr>language := Str (u ''x'')\<rparr>, Inr NoneV) \<and>
   normalize example_env eager_en (Str (u ''x'')) (Some [Bare ''__init__''])
     = (blank\<lparr>language := Str (u ''x'')\<rparr>, Inl ResourceNotFoundError) \<and>
   \<not> grows eager_en (after example_env eager_en (Normalize (Str (u ''x'')) (Some [lazy_init])))"
  by (simp add: eval_defs eager_en_def lazy_init_def grows_def insert_commute)

section \<open>One matcher for one set of characters\<close>




end
